theory Spec2Isabelle
  imports Main
begin

section \<open>Strings, runes and errors\<close>

text \<open>
  The package works on Go strings through their rune sequence: \<^verbatim>\<open>[]rune(str)\<close> on the
  way in, \<^verbatim>\<open>strings.Builder.WriteRune\<close> and \<^verbatim>\<open>String()\<close> on the way out. A Go string (valid
  UTF-8) is therefore represented by the list of its code points, a \<^verbatim>\<open>[]string\<close> by a list
  of such lists, and a \<^verbatim>\<open>nil\<close> slice by the empty list.
\<close>

type_synonym rune = nat
type_synonym gostring = "rune list"

definition eol :: rune where "eol = 0"
definition esc :: rune where "esc = 92"
definition sqt :: rune where "sqt = 39"
definition dqt :: rune where "dqt = 34"

text \<open>
  \<^verbatim>\<open>len(s)\<close> of a Go string counts the bytes of its UTF-8 encoding, not its runes.
  \<open>RuneLen\<close> is the number of bytes \<^verbatim>\<open>WriteRune\<close> writes for one rune (surrogates and
  values beyond U+10FFFF are written as U+FFFD, three bytes).
\<close>

definition RuneLen :: "rune \<Rightarrow> nat" where
  "RuneLen r =
     (if r < 0x80 then 1
      else if r < 0x800 then 2
      else if (0xD800 \<le> r \<and> r \<le> 0xDFFF) \<or> 0x10FFFF < r then 3
      else if r < 0x10000 then 3
      else 4)"

definition len :: "gostring \<Rightarrow> nat" where
  "len s = sum_list (map RuneLen s)"

text \<open>
  Modelled from the spec: \<^verbatim>\<open>unicode.IsSpace\<close> belongs to the Go standard library, not to
  the repository. The spec calls it the Unicode whitespace classification; that is the
  White_Space property, whose code points are listed here.
\<close>

definition IsSpace :: "rune \<Rightarrow> bool" where
  "IsSpace r =
     ((0x09 \<le> r \<and> r \<le> 0x0D) \<or> r = 0x20 \<or> r = 0x85 \<or> r = 0xA0 \<or> r = 0x1680
      \<or> (0x2000 \<le> r \<and> r \<le> 0x200A) \<or> r = 0x2028 \<or> r = 0x2029 \<or> r = 0x202F
      \<or> r = 0x205F \<or> r = 0x3000)"

text \<open>The runes of an ASCII literal, for writing example lines.\<close>

definition runes :: "string \<Rightarrow> gostring" where
  "runes s = map of_char s"

text \<open>
  The error kinds of the package (\<^verbatim>\<open>ErrParse.Make().Msg(m)\<close> is \<open>ErrParse m\<close>);
  \<open>GenericError\<close> stands for an error of the errors library that a callback may return.
\<close>

datatype error = ErrRun | ErrReturnCode int | ErrParse string | GenericError

section \<open>The tokenizer\<close>

datatype parse_state = parseDefault | parseSingleQuote | parseDoubleQuote

text \<open>The local variables of \<^verbatim>\<open>split\<close> that the loop updates.\<close>

record split_vars =
  parts :: "gostring list"
  state :: parse_state
  escape :: bool
  sb :: gostring
  partStart :: int

definition split_init :: split_vars where
  "split_init = \<lparr>parts = [], state = parseDefault, escape = False, sb = [], partStart = 0\<rparr>"

text \<open>
  The guard at the head of the loop body: a sentinel rune before the last index, or at the
  last index inside a quote or with an escape pending, makes \<^verbatim>\<open>split\<close> return an error.
  \<open>n\<close> is \<^verbatim>\<open>len(runes)\<close>, \<open>i\<close> the loop index.
\<close>

definition eol_check :: "int \<Rightarrow> int \<Rightarrow> rune \<Rightarrow> split_vars \<Rightarrow> error option" where
  "eol_check n i r v =
     (if r = eol then
        (if i < n - 1 then Some (ErrParse ''Invalid 0 char in command line'')
         else if state v \<noteq> parseDefault \<or> escape v
           then Some (ErrParse ''Unexpected end of command line'')
         else None)
      else None)"

text \<open>The \<^verbatim>\<open>switch state\<close> statement of the loop body.\<close>

definition transition :: "int \<Rightarrow> rune \<Rightarrow> split_vars \<Rightarrow> split_vars" where
  "transition i r v =
     (case state v of
        parseDefault \<Rightarrow>
          (if escape v then v\<lparr>escape := False, sb := sb v @ [r]\<rparr>
           else if IsSpace r \<or> r = eol then
             (if partStart v < i - 1
              then v\<lparr>parts := parts v @ [sb v], sb := [], partStart := i\<rparr>
              else v\<lparr>partStart := i\<rparr>)
           else if r = sqt then v\<lparr>state := parseSingleQuote\<rparr>
           else if r = dqt then v\<lparr>state := parseDoubleQuote\<rparr>
           else if r = esc then v\<lparr>escape := True\<rparr>
           else v\<lparr>sb := sb v @ [r]\<rparr>)
      | parseSingleQuote \<Rightarrow>
          (if r = sqt then v\<lparr>state := parseDefault\<rparr>
           else v\<lparr>sb := sb v @ [r]\<rparr>)
      | parseDoubleQuote \<Rightarrow>
          (if escape v then
             v\<lparr>escape := False,
               sb := (if r \<noteq> esc \<and> r \<noteq> dqt then sb v @ [esc] else sb v) @ [r]\<rparr>
           else if r = dqt then v\<lparr>state := parseDefault\<rparr>
           else if r = esc then v\<lparr>escape := True\<rparr>
           else v\<lparr>sb := sb v @ [r]\<rparr>))"

text \<open>One iteration of the loop: the guard, then the switch.\<close>

definition step :: "int \<Rightarrow> int \<Rightarrow> rune \<Rightarrow> split_vars \<Rightarrow> error + split_vars" where
  "step n i r v =
     (case eol_check n i r v of
        Some e \<Rightarrow> Inl e
      | None \<Rightarrow> Inr (transition i r v))"

text \<open>\<^verbatim>\<open>for i, r := range runes\<close>, from index \<open>i\<close> over the runes still to come.\<close>

fun loop :: "int \<Rightarrow> int \<Rightarrow> rune list \<Rightarrow> split_vars \<Rightarrow> error + split_vars" where
  "loop n i [] v = Inr v"
| "loop n i (r # rs) v =
     (case step n i r v of
        Inl e \<Rightarrow> Inl e
      | Inr v' \<Rightarrow> loop n (i + 1) rs v')"

definition split :: "gostring \<Rightarrow> gostring list \<times> error option" where
  "split str =
     (let runes = str @ [eol] in
      case loop (int (length runes)) 0 runes split_init of
        Inl e \<Rightarrow> ([], Some e)
      | Inr v \<Rightarrow> (parts v, None))"

definition Parse :: "gostring \<Rightarrow> gostring \<times> gostring list \<times> error option" where
  "Parse commandLine =
     (case split commandLine of
        (ps, Some err) \<Rightarrow> ([], [], Some err)
      | (ps, None) \<Rightarrow>
          if length ps = 0 then ([], [], Some (ErrParse ''Unexpected end of command line''))
          else if length ps = 1 then (ps ! 0, [], None)
          else (ps ! 0, drop 1 ps, None))"

section \<open>The encoder\<close>

fun quoteRaw_loop :: "gostring \<Rightarrow> rune list \<Rightarrow> gostring" where
  "quoteRaw_loop b [] = b"
| "quoteRaw_loop b (r # rs) =
     quoteRaw_loop
       ((if IsSpace r \<or> r = sqt \<or> r = dqt \<or> r = esc then b @ [esc] else b) @ [r]) rs"

definition quoteRaw :: "gostring \<Rightarrow> gostring" where
  "quoteRaw str = quoteRaw_loop [] str"

fun quoteSingle_loop :: "gostring \<Rightarrow> rune list \<Rightarrow> gostring" where
  "quoteSingle_loop b [] = b"
| "quoteSingle_loop b (r # rs) =
     quoteSingle_loop (if r = sqt then b @ [sqt] @ [esc] @ [sqt] @ [sqt] else b @ [r]) rs"

definition quoteSingle :: "gostring \<Rightarrow> gostring" where
  "quoteSingle str = quoteSingle_loop [sqt] str @ [sqt]"

fun quoteDouble_loop :: "gostring \<Rightarrow> rune list \<Rightarrow> gostring" where
  "quoteDouble_loop b [] = b"
| "quoteDouble_loop b (r # rs) =
     quoteDouble_loop ((if r = dqt \<or> r = esc then b @ [esc] else b) @ [r]) rs"

definition quoteDouble :: "gostring \<Rightarrow> gostring" where
  "quoteDouble str = quoteDouble_loop [dqt] str @ [dqt]"

definition Quote :: "gostring \<Rightarrow> gostring" where
  "Quote str =
     (if len str = 0 then [dqt, dqt]
      else
        let raw = quoteRaw str; single = quoteSingle str; double = quoteDouble str in
        if len raw < len double then
          (if len single < len raw then single else raw)
        else if len single < len double then single
        else double)"

fun GetCommandLine_loop :: "gostring \<Rightarrow> gostring list \<Rightarrow> gostring" where
  "GetCommandLine_loop b [] = b"
| "GetCommandLine_loop b (arg # args) = GetCommandLine_loop (b @ [32] @ Quote arg) args"

definition GetCommandLine :: "gostring \<Rightarrow> gostring list \<Rightarrow> gostring" where
  "GetCommandLine command args = GetCommandLine_loop (Quote command) args"

section \<open>The mock executor\<close>

text \<open>
  A callback returns output, exit code and error, and may change the world around it
  (the tests' callbacks assign captured variables), so it is a function on a state
  \<open>'w\<close>. \<open>RunCallback\<close> is a Go function value and may be \<^verbatim>\<open>nil\<close> (\<open>None\<close>); calling
  it then panics, which is the result \<open>None\<close> of the two methods.
\<close>

type_synonym 'w callback =
  "gostring \<Rightarrow> gostring list \<Rightarrow> 'w \<Rightarrow> (gostring \<times> int \<times> error option) \<times> 'w"

record 'w MockExecutor =
  RunCallback :: "'w callback option"

definition call :: "'w callback option \<Rightarrow> gostring \<Rightarrow> gostring list \<Rightarrow> 'w
    \<Rightarrow> ((gostring \<times> int \<times> error option) \<times> 'w) option" where
  "call f command args w = (case f of None \<Rightarrow> None | Some cb \<Rightarrow> Some (cb command args w))"

definition MockExecutor_RunLine :: "'w MockExecutor \<Rightarrow> gostring \<Rightarrow> 'w
    \<Rightarrow> ((gostring \<times> int \<times> error option) \<times> 'w) option" where
  "MockExecutor_RunLine e commandLine w =
     (case Parse commandLine of
        (command, args, Some err) \<Rightarrow> Some (([], 0, Some err), w)
      | (command, args, None) \<Rightarrow> call (RunCallback e) command args w)"

definition MockExecutor_Run :: "'w MockExecutor \<Rightarrow> gostring \<Rightarrow> gostring list \<Rightarrow> 'w
    \<Rightarrow> ((gostring \<times> int \<times> error option) \<times> 'w) option" where
  "MockExecutor_Run e command args w = call (RunCallback e) command args w"

definition NewMockExecutor :: "'w callback option \<Rightarrow> 'w MockExecutor" where
  "NewMockExecutor runCallback = \<lparr>RunCallback = runCallback\<rparr>"

text \<open>
  The callback of the tests \<^verbatim>\<open>TestMockExecutorRun\<close> and \<^verbatim>\<open>TestMockExecutorRunLine\<close>: it
  records the command and arguments it was called with and returns \<^verbatim>\<open>"foobar", 42\<close> and
  a generic error. The world is the list of recorded calls, latest first.
\<close>

definition test_callback :: "(gostring \<times> gostring list) list callback" where
  "test_callback command args w =
     ((runes ''foobar'', 42, Some GenericError), (command, args) # w)"

section \<open>Notions used to state the properties\<close>

text \<open>The local variables of \<^verbatim>\<open>split\<close> with given values, in the order of the record.\<close>

abbreviation vars ::
    "gostring list \<Rightarrow> parse_state \<Rightarrow> bool \<Rightarrow> gostring \<Rightarrow> int \<Rightarrow> split_vars" where
  "vars p st e b ps \<equiv> \<lparr>parts = p, state = st, escape = e, sb = b, partStart = ps\<rparr>"

text \<open>What each of the three encoder loops writes for one rune.\<close>

definition rawEsc :: "rune \<Rightarrow> gostring" where
  "rawEsc r = (if IsSpace r \<or> r = sqt \<or> r = dqt \<or> r = esc then [esc, r] else [r])"

definition singleEsc :: "rune \<Rightarrow> gostring" where
  "singleEsc r = (if r = sqt then [sqt, esc, sqt, sqt] else [r])"

definition doubleEsc :: "rune \<Rightarrow> gostring" where
  "doubleEsc r = (if r = dqt \<or> r = esc then [esc, r] else [r])"

text \<open>
  The selection rule in the words of the specification, for a length function \<open>sz\<close>:
  stage one picks the double-quoted form unless the raw form is strictly shorter, stage
  two picks the single-quoted form only if it is strictly shorter than the stage-one
  winner.
\<close>

definition selection_rule :: "(gostring \<Rightarrow> nat) \<Rightarrow> gostring \<Rightarrow> gostring" where
  "selection_rule sz v =
     (let raw = quoteRaw v; single = quoteSingle v; double = quoteDouble v;
          winner = (if sz raw \<ge> sz double then double else raw)
      in if sz single < sz winner then single else winner)"

text \<open>
  The scan without the sentinel guard: the switch statement applied to the runes in turn,
  from index \<open>i\<close>. \<open>scan 0 line split_init\<close> holds the variables when the sentinel is reached,
  \<open>scan 0 (line @ [eol]) split_init\<close> those after it.
\<close>

fun scan :: "int \<Rightarrow> rune list \<Rightarrow> split_vars \<Rightarrow> split_vars" where
  "scan i [] v = v"
| "scan i (r # rs) v = scan (i + 1) rs (transition i r v)"

text \<open>Neither the token under construction nor an emitted token holds the sentinel.\<close>

definition sentinel_free :: "split_vars \<Rightarrow> bool" where
  "sentinel_free v = (eol \<notin> set (sb v) \<and> (\<forall>p \<in> set (parts v). eol \<notin> set p))"

section \<open>Auxiliary facts\<close>

lemmas rune_defs = eol_def esc_def sqt_def dqt_def

lemmas ev = runes_def rune_defs IsSpace_def split_def Parse_def split_init_def
  step_def eol_check_def transition_def Quote_def quoteRaw_def quoteSingle_def quoteDouble_def
  len_def RuneLen_def GetCommandLine_def

lemma IsSpace_consts [simp]:
  "IsSpace 32" "\<not> IsSpace eol" "\<not> IsSpace esc" "\<not> IsSpace sqt" "\<not> IsSpace dqt"
  by (simp_all add: IsSpace_def rune_defs)

lemma rune_distinct [simp]:
  "esc \<noteq> eol" "sqt \<noteq> eol" "dqt \<noteq> eol" "sqt \<noteq> esc" "dqt \<noteq> esc" "dqt \<noteq> sqt"
  "eol \<noteq> esc" "eol \<noteq> sqt" "eol \<noteq> dqt" "esc \<noteq> sqt" "esc \<noteq> dqt" "sqt \<noteq> dqt"
  "32 \<noteq> eol"
  by (simp_all add: rune_defs)

subsection \<open>The encoder loops in closed form\<close>

lemma quoteRaw_loop_eq: "quoteRaw_loop b rs = b @ concat (map rawEsc rs)"
  by (induction rs arbitrary: b) (simp_all add: rawEsc_def)

lemma quoteSingle_loop_eq: "quoteSingle_loop b rs = b @ concat (map singleEsc rs)"
  by (induction rs arbitrary: b) (simp_all add: singleEsc_def)

lemma quoteDouble_loop_eq: "quoteDouble_loop b rs = b @ concat (map doubleEsc rs)"
  by (induction rs arbitrary: b) (simp_all add: doubleEsc_def)

lemma quoteRaw_eq: "quoteRaw str = concat (map rawEsc str)"
  by (simp add: quoteRaw_def quoteRaw_loop_eq)

lemma quoteSingle_eq: "quoteSingle str = sqt # concat (map singleEsc str) @ [sqt]"
  by (simp add: quoteSingle_def quoteSingle_loop_eq)

lemma quoteDouble_eq: "quoteDouble str = dqt # concat (map doubleEsc str) @ [dqt]"
  by (simp add: quoteDouble_def quoteDouble_loop_eq)

lemma GetCommandLine_loop_eq:
  "GetCommandLine_loop b args = b @ concat (map (\<lambda>arg. 32 # Quote arg) args)"
  by (induction args arbitrary: b) simp_all

subsection \<open>Byte length against rune count\<close>

lemma RuneLen_pos [simp]: "0 < RuneLen r"
  by (simp add: RuneLen_def)

lemma RuneLen_consts [simp]: "RuneLen esc = 1" "RuneLen sqt = 1" "RuneLen dqt = 1"
  by (simp_all add: RuneLen_def rune_defs)

lemma len_Nil [simp]: "len [] = 0"
  by (simp add: len_def)

lemma len_Cons [simp]: "len (r # s) = RuneLen r + len s"
  by (simp add: len_def)

lemma len_append [simp]: "len (s @ t) = len s + len t"
  by (simp add: len_def)

lemma len_eq_0: "len s = 0 \<longleftrightarrow> s = []"
  by (cases s) simp_all

lemma len_rawEsc:
  "len (concat (map rawEsc s)) + length s = length (concat (map rawEsc s)) + len s"
  by (induction s) (simp_all add: rawEsc_def)

lemma len_singleEsc:
  "len (concat (map singleEsc s)) + length s = length (concat (map singleEsc s)) + len s"
  by (induction s) (simp_all add: singleEsc_def)

lemma len_doubleEsc:
  "len (concat (map doubleEsc s)) + length s = length (concat (map doubleEsc s)) + len s"
  by (induction s) (simp_all add: doubleEsc_def)

lemma len_quoteRaw: "len (quoteRaw s) + length s = length (quoteRaw s) + len s"
  by (simp add: quoteRaw_eq len_rawEsc)

lemma len_quoteSingle: "len (quoteSingle s) + length s = length (quoteSingle s) + len s"
  using len_singleEsc [of s] by (simp add: quoteSingle_eq)

lemma len_quoteDouble: "len (quoteDouble s) + length s = length (quoteDouble s) + len s"
  using len_doubleEsc [of s] by (simp add: quoteDouble_eq)

subsection \<open>Which rendering \<open>Quote\<close> returns\<close>

lemma Quote_cases:
  "Quote v = [dqt, dqt] \<and> v = [] \<or>
   v \<noteq> [] \<and> (Quote v = quoteRaw v \<or> Quote v = quoteSingle v \<or> Quote v = quoteDouble v)"
  by (simp add: Quote_def len_eq_0 Let_def)

lemma rawEsc_nonempty: "rawEsc r \<noteq> []"
  by (simp add: rawEsc_def)

lemma Quote_nonempty: "Quote v \<noteq> []"
  using Quote_cases [of v]
  by (cases v) (auto simp add: quoteRaw_eq quoteSingle_eq quoteDouble_eq rawEsc_nonempty)

lemma length_rawEsc: "length (concat (map rawEsc c)) \<ge> length c"
  by (induction c) (simp_all add: rawEsc_def)

text \<open>The encoding is one rune long exactly for a single rune that needs no escape.\<close>

lemma Quote_length_1:
  "length (Quote c) = 1 \<longleftrightarrow>
   (\<exists>r. c = [r] \<and> \<not> (IsSpace r \<or> r = sqt \<or> r = dqt \<or> r = esc))"
proof
  assume l: "length (Quote c) = 1"
  consider "Quote c = [dqt, dqt]" | "c \<noteq> []" "Quote c = quoteRaw c" | "Quote c = quoteSingle c"
    | "Quote c = quoteDouble c"
    using Quote_cases [of c] by blast
  then show "\<exists>r. c = [r] \<and> \<not> (IsSpace r \<or> r = sqt \<or> r = dqt \<or> r = esc)"
  proof cases
    case 1
    with l show ?thesis by simp
  next
    case 2
    then obtain r rs where c: "c = r # rs" by (cases c) auto
    have ge: "length (concat (map rawEsc rs)) \<ge> length rs" by (rule length_rawEsc)
    have sum: "length (Quote c) = length (rawEsc r) + length (concat (map rawEsc rs))"
      using 2 c by (simp add: quoteRaw_eq)
    have "1 \<le> length (rawEsc r)" by (simp add: rawEsc_def)
    with l sum ge have "length rs = 0" and "length (rawEsc r) = 1" by linarith+
    then have "rs = []" and "length (rawEsc r) = 1" by simp_all
    then show ?thesis using c by (auto simp add: rawEsc_def split: if_splits)
  next
    case 3
    with l show ?thesis by (simp add: quoteSingle_eq)
  next
    case 4
    with l show ?thesis by (simp add: quoteDouble_eq)
  qed
next
  assume "\<exists>r. c = [r] \<and> \<not> (IsSpace r \<or> r = sqt \<or> r = dqt \<or> r = esc)"
  then obtain r where "c = [r]" and "\<not> (IsSpace r \<or> r = sqt \<or> r = dqt \<or> r = esc)"
    by blast
  then show "length (Quote c) = 1"
    by (simp add: Quote_def len_eq_0 Let_def quoteRaw_eq quoteSingle_eq quoteDouble_eq
          rawEsc_def singleEsc_def doubleEsc_def)
qed

subsection \<open>Single iterations of the tokenizer loop\<close>

lemma step_not_eol: "r \<noteq> eol \<Longrightarrow> step n i r v = Inr (transition i r v)"
  by (simp add: step_def eol_check_def)

lemma step_eol_early:
  "i < n - 1 \<Longrightarrow> step n i eol v = Inl (ErrParse ''Invalid 0 char in command line'')"
  by (simp add: step_def eol_check_def)

lemma step_eol_last:
  "\<not> i < n - 1 \<Longrightarrow>
   step n i eol v =
     (if state v \<noteq> parseDefault \<or> escape v
      then Inl (ErrParse ''Unexpected end of command line'')
      else Inr (transition i eol v))"
  by (simp add: step_def eol_check_def)

lemma step_default_escaped:
  "r \<noteq> eol \<Longrightarrow>
   step n i r (vars p parseDefault True b ps) = Inr (vars p parseDefault False (b @ [r]) ps)"
  by (simp add: step_def eol_check_def transition_def)

lemma step_default_esc:
  "step n i esc (vars p parseDefault False b ps) = Inr (vars p parseDefault True b ps)"
  by (simp add: step_def eol_check_def transition_def)

lemma step_default_sqt:
  "step n i sqt (vars p parseDefault False b ps) = Inr (vars p parseSingleQuote False b ps)"
  by (simp add: step_def eol_check_def transition_def)

lemma step_default_dqt:
  "step n i dqt (vars p parseDefault False b ps) = Inr (vars p parseDoubleQuote False b ps)"
  by (simp add: step_def eol_check_def transition_def)

lemma step_default_plain:
  "\<not> IsSpace r \<Longrightarrow> r \<noteq> eol \<Longrightarrow> r \<noteq> sqt \<Longrightarrow> r \<noteq> dqt \<Longrightarrow> r \<noteq> esc \<Longrightarrow>
   step n i r (vars p parseDefault False b ps) = Inr (vars p parseDefault False (b @ [r]) ps)"
  by (simp add: step_def eol_check_def transition_def)

lemma step_default_space:
  "IsSpace r \<Longrightarrow> r \<noteq> eol \<Longrightarrow>
   step n i r (vars p parseDefault False b ps) =
     Inr (if ps < i - 1 then vars (p @ [b]) parseDefault False [] i
          else vars p parseDefault False b i)"
  by (simp add: step_def eol_check_def transition_def)

lemma step_default_eol:
  "\<not> i < n - 1 \<Longrightarrow>
   step n i eol (vars p parseDefault False b ps) =
     Inr (if ps < i - 1 then vars (p @ [b]) parseDefault False [] i
          else vars p parseDefault False b i)"
  by (simp add: step_def eol_check_def transition_def)

lemma step_single_sqt:
  "step n i sqt (vars p parseSingleQuote e b ps) = Inr (vars p parseDefault e b ps)"
  by (simp add: step_def eol_check_def transition_def)

lemma step_single_other:
  "r \<noteq> sqt \<Longrightarrow> r \<noteq> eol \<Longrightarrow>
   step n i r (vars p parseSingleQuote e b ps) = Inr (vars p parseSingleQuote e (b @ [r]) ps)"
  by (simp add: step_def eol_check_def transition_def)

lemma step_double_escaped_special:
  "r = esc \<or> r = dqt \<Longrightarrow>
   step n i r (vars p parseDoubleQuote True b ps) =
     Inr (vars p parseDoubleQuote False (b @ [r]) ps)"
  by (auto simp add: step_def eol_check_def transition_def)

lemma step_double_escaped_other:
  "r \<noteq> esc \<Longrightarrow> r \<noteq> dqt \<Longrightarrow> r \<noteq> eol \<Longrightarrow>
   step n i r (vars p parseDoubleQuote True b ps) =
     Inr (vars p parseDoubleQuote False (b @ [esc, r]) ps)"
  by (simp add: step_def eol_check_def transition_def)

lemma step_double_dqt:
  "step n i dqt (vars p parseDoubleQuote False b ps) = Inr (vars p parseDefault False b ps)"
  by (simp add: step_def eol_check_def transition_def)

lemma step_double_esc:
  "step n i esc (vars p parseDoubleQuote False b ps) = Inr (vars p parseDoubleQuote True b ps)"
  by (simp add: step_def eol_check_def transition_def)

lemma step_double_other:
  "r \<noteq> dqt \<Longrightarrow> r \<noteq> esc \<Longrightarrow> r \<noteq> eol \<Longrightarrow>
   step n i r (vars p parseDoubleQuote False b ps) =
     Inr (vars p parseDoubleQuote False (b @ [r]) ps)"
  by (simp add: step_def eol_check_def transition_def)

subsection \<open>Scanning one encoded token\<close>

lemma loop_raw:
  "eol \<notin> set v \<Longrightarrow>
   loop n i (concat (map rawEsc v) @ rest) (vars p parseDefault False b ps) =
   loop n (i + int (length (concat (map rawEsc v)))) rest
     (vars p parseDefault False (b @ v) ps)"
proof (induction v arbitrary: i b)
  case Nil
  then show ?case by simp
next
  case (Cons r v)
  then have r: "r \<noteq> eol" and v: "eol \<notin> set v" by auto
  show ?case
  proof (cases "IsSpace r \<or> r = sqt \<or> r = dqt \<or> r = esc")
    case True
    then have "rawEsc r = [esc, r]" by (simp add: rawEsc_def)
    then show ?thesis
      using Cons.IH [OF v, of "i + 2" "b @ [r]"] r
      by (simp add: step_default_esc step_default_escaped add.assoc)
  next
    case False
    then have "rawEsc r = [r]" by (simp add: rawEsc_def)
    then show ?thesis
      using Cons.IH [OF v, of "i + 1" "b @ [r]"] r False
      by (simp add: step_default_plain add.assoc)
  qed
qed

lemma loop_single_body:
  "eol \<notin> set v \<Longrightarrow>
   loop n i (concat (map singleEsc v) @ rest) (vars p parseSingleQuote False b ps) =
   loop n (i + int (length (concat (map singleEsc v)))) rest
     (vars p parseSingleQuote False (b @ v) ps)"
proof (induction v arbitrary: i b)
  case Nil
  then show ?case by simp
next
  case (Cons r v)
  then have r: "r \<noteq> eol" and v: "eol \<notin> set v" by auto
  show ?case
  proof (cases "r = sqt")
    case True
    then have "singleEsc r = [sqt, esc, sqt, sqt]" by (simp add: singleEsc_def)
    then show ?thesis
      using Cons.IH [OF v, of "i + 4" "b @ [r]"] True
      by (simp add: step_single_sqt step_default_esc step_default_escaped step_default_sqt
            add.assoc)
  next
    case False
    then have "singleEsc r = [r]" by (simp add: singleEsc_def)
    then show ?thesis
      using Cons.IH [OF v, of "i + 1" "b @ [r]"] r False
      by (simp add: step_single_other add.assoc)
  qed
qed

lemma loop_double_body:
  "eol \<notin> set v \<Longrightarrow>
   loop n i (concat (map doubleEsc v) @ rest) (vars p parseDoubleQuote False b ps) =
   loop n (i + int (length (concat (map doubleEsc v)))) rest
     (vars p parseDoubleQuote False (b @ v) ps)"
proof (induction v arbitrary: i b)
  case Nil
  then show ?case by simp
next
  case (Cons r v)
  then have r: "r \<noteq> eol" and v: "eol \<notin> set v" by auto
  show ?case
  proof (cases "r = dqt \<or> r = esc")
    case True
    then have "doubleEsc r = [esc, r]" by (simp add: doubleEsc_def)
    then show ?thesis
      using Cons.IH [OF v, of "i + 2" "b @ [r]"] True
      by (auto simp add: step_double_esc step_double_escaped_special add.assoc)
  next
    case False
    then have "doubleEsc r = [r]" by (simp add: doubleEsc_def)
    then show ?thesis
      using Cons.IH [OF v, of "i + 1" "b @ [r]"] r False
      by (simp add: step_double_other add.assoc)
  qed
qed

lemma loop_quoteRaw:
  "eol \<notin> set v \<Longrightarrow>
   loop n i (quoteRaw v @ rest) (vars p parseDefault False b ps) =
   loop n (i + int (length (quoteRaw v))) rest (vars p parseDefault False (b @ v) ps)"
  by (simp add: quoteRaw_eq loop_raw)

lemma loop_quoteSingle:
  "eol \<notin> set v \<Longrightarrow>
   loop n i (quoteSingle v @ rest) (vars p parseDefault False b ps) =
   loop n (i + int (length (quoteSingle v))) rest (vars p parseDefault False (b @ v) ps)"
  using loop_single_body [of v n "i + 1" "sqt # rest" p b ps]
  by (simp add: quoteSingle_eq step_default_sqt step_single_sqt add.assoc)

lemma loop_quoteDouble:
  "eol \<notin> set v \<Longrightarrow>
   loop n i (quoteDouble v @ rest) (vars p parseDefault False b ps) =
   loop n (i + int (length (quoteDouble v))) rest (vars p parseDefault False (b @ v) ps)"
  using loop_double_body [of v n "i + 1" "dqt # rest" p b ps]
  by (simp add: quoteDouble_eq step_default_dqt step_double_dqt add.assoc)

lemma loop_Quote:
  assumes "eol \<notin> set v"
  shows "loop n i (Quote v @ rest) (vars p parseDefault False b ps) =
         loop n (i + int (length (Quote v))) rest (vars p parseDefault False (b @ v) ps)"
proof -
  consider "Quote v = [dqt, dqt]" "v = []" | "Quote v = quoteRaw v" | "Quote v = quoteSingle v"
    | "Quote v = quoteDouble v"
    using Quote_cases [of v] by blast
  then show ?thesis
  proof cases
    case 1
    then show ?thesis by (simp add: step_default_dqt step_double_dqt add.commute)
  next
    case 2
    then show ?thesis using assms by (simp add: loop_quoteRaw)
  next
    case 3
    then show ?thesis using assms by (simp add: loop_quoteSingle)
  next
    case 4
    then show ?thesis using assms by (simp add: loop_quoteDouble)
  qed
qed

subsection \<open>Scanning an encoded line\<close>

lemma loop_args:
  assumes "\<forall>a \<in> set args. eol \<notin> set a" and "ps < i - 1"
    and "n = i + int (length (concat (map (\<lambda>arg. 32 # Quote arg) args))) + 1"
  shows "\<exists>ps'. loop n i (concat (map (\<lambda>arg. 32 # Quote arg) args) @ [eol])
           (vars p parseDefault False b ps) =
         Inr (vars (p @ b # args) parseDefault False [] ps')"
  using assms
proof (induction args arbitrary: i p b ps)
  case Nil
  then show ?case by (simp add: step_default_eol)
next
  case (Cons a args)
  have a: "eol \<notin> set a" and rest: "\<forall>x \<in> set args. eol \<notin> set x"
    using Cons.prems(1) by auto
  have pos: "0 < length (Quote a)"
    using Quote_nonempty [of a] by simp
  let ?i' = "i + 1 + int (length (Quote a))"
  have lt: "i < ?i' - 1" using pos by simp
  have n: "n = ?i' + int (length (concat (map (\<lambda>arg. 32 # Quote arg) args))) + 1"
    using Cons.prems(3) by simp
  obtain ps' where ih:
    "loop n ?i' (concat (map (\<lambda>arg. 32 # Quote arg) args) @ [eol])
       (vars (p @ [b]) parseDefault False a i) =
     Inr (vars ((p @ [b]) @ a # args) parseDefault False [] ps')"
    using Cons.IH [OF rest lt n, of "p @ [b]" a] by blast
  have "loop n i (concat (map (\<lambda>arg. 32 # Quote arg) (a # args)) @ [eol])
          (vars p parseDefault False b ps) =
        loop n (i + 1) (Quote a @ concat (map (\<lambda>arg. 32 # Quote arg) args) @ [eol])
          (vars (p @ [b]) parseDefault False [] i)"
    using Cons.prems(2) by (simp add: step_default_space)
  also have "\<dots> = loop n ?i' (concat (map (\<lambda>arg. 32 # Quote arg) args) @ [eol])
          (vars (p @ [b]) parseDefault False a i)"
    using loop_Quote [OF a, of n "i + 1" _ "p @ [b]" "[]" i] by simp
  finally show ?case using ih by auto
qed

lemma split_GetCommandLine:
  assumes c: "eol \<notin> set c" and args: "\<forall>a \<in> set args. eol \<notin> set a"
    and two: "length (Quote c) \<noteq> 1"
  shows "split (GetCommandLine c args) = (c # args, None)"
proof -
  let ?rest = "concat (map (\<lambda>arg. 32 # Quote arg) args)"
  let ?n = "1 + (int (length (Quote c)) + int (length ?rest))"
  have "length (Quote c) \<noteq> 0" using Quote_nonempty [of c] by simp
  with two have lt: "(0::int) < int (length (Quote c)) - 1" by linarith
  obtain ps' where fin:
    "loop ?n (int (length (Quote c))) (?rest @ [eol]) (vars [] parseDefault False c 0) =
     Inr (vars ([] @ c # args) parseDefault False [] ps')"
    using loop_args [OF args lt, of ?n "[]" c] by auto
  have "loop ?n 0 (Quote c @ ?rest @ [eol]) split_init =
        loop ?n (0 + int (length (Quote c))) (?rest @ [eol])
          (vars [] parseDefault False ([] @ c) 0)"
    unfolding split_init_def by (rule loop_Quote [OF c])
  with fin have "loop ?n 0 (Quote c @ ?rest @ [eol]) split_init =
      Inr (vars (c # args) parseDefault False [] ps')"
    by simp
  then show ?thesis
    by (simp add: split_def GetCommandLine_def GetCommandLine_loop_eq)
qed

subsection \<open>When \<open>split\<close> and \<open>Parse\<close> fail\<close>

lemma loop_scan:
  "eol \<notin> set rs \<Longrightarrow>
   loop n i (rs @ rest) v = loop n (i + int (length rs)) rest (scan i rs v)"
proof (induction rs arbitrary: i v)
  case Nil
  then show ?case by simp
next
  case (Cons r rs)
  then show ?case
    using Cons.IH [of "i + 1" "transition i r v"]
    by (simp add: step_not_eol add.assoc)
qed

lemma scan_append: "scan i (rs @ rest) v = scan (i + int (length rs)) rest (scan i rs v)"
  by (induction rs arbitrary: i v) (simp_all add: add.assoc)

lemma loop_eol_early:
  "eol \<in> set rs \<Longrightarrow> i + int (length rs) \<le> n - 1 \<Longrightarrow>
   loop n i (rs @ rest) v = Inl (ErrParse ''Invalid 0 char in command line'')"
proof (induction rs arbitrary: i v)
  case Nil
  then show ?case by simp
next
  case (Cons r rs)
  show ?case
  proof (cases "r = eol")
    case True
    have "i < n - 1" using Cons.prems(2) by simp
    then show ?thesis using True by (simp add: step_eol_early)
  next
    case False
    then have "eol \<in> set rs" using Cons.prems(1) by auto
    moreover have "(i + 1) + int (length rs) \<le> n - 1" using Cons.prems(2) by simp
    ultimately show ?thesis
      using Cons.IH [of "i + 1" "transition i r v"] False by (simp add: step_not_eol)
  qed
qed

lemma split_eq:
  "split line =
     (if eol \<in> set line then ([], Some (ErrParse ''Invalid 0 char in command line''))
      else if state (scan 0 line split_init) \<noteq> parseDefault \<or> escape (scan 0 line split_init)
        then ([], Some (ErrParse ''Unexpected end of command line''))
      else (parts (scan 0 (line @ [eol]) split_init), None))"
proof (cases "eol \<in> set line")
  case True
  then have "loop (int (length (line @ [eol]))) 0 (line @ [eol]) split_init =
      Inl (ErrParse ''Invalid 0 char in command line'')"
    by (intro loop_eol_early) simp_all
  then show ?thesis using True by (simp add: split_def)
next
  case False
  let ?n = "int (length (line @ [eol]))"
  have last: "\<not> int (length line) < ?n - 1" by simp
  have "loop ?n 0 (line @ [eol]) split_init =
        loop ?n (0 + int (length line)) [eol] (scan 0 line split_init)"
    using False by (rule loop_scan)
  then have "loop ?n 0 (line @ [eol]) split_init =
      (if state (scan 0 line split_init) \<noteq> parseDefault \<or> escape (scan 0 line split_init)
       then Inl (ErrParse ''Unexpected end of command line'')
       else Inr (transition (int (length line)) eol (scan 0 line split_init)))"
    using step_eol_last [OF last, of "scan 0 line split_init"] by simp
  then show ?thesis using False by (simp add: split_def Let_def scan_append)
qed

lemma Parse_ok_iff: "Parse line = (c, args, None) \<longleftrightarrow> split line = (c # args, None)"
proof -
  obtain ps e where s: "split line = (ps, e)" by (cases "split line")
  show ?thesis
  proof (cases ps)
    case Nil
    then show ?thesis using s by (auto simp add: Parse_def split: option.splits)
  next
    case (Cons p ps')
    then show ?thesis using s
      by (cases ps') (auto simp add: Parse_def split: option.splits)
  qed
qed

subsection \<open>The sentinel never enters a token\<close>

lemma step_sentinel_free:
  "step n i r v = Inr v' \<Longrightarrow> sentinel_free v \<Longrightarrow> sentinel_free v'"
  by (auto simp add: step_def eol_check_def transition_def sentinel_free_def
        split: if_splits parse_state.splits)

lemma loop_sentinel_free:
  "loop n i rs v = Inr v' \<Longrightarrow> sentinel_free v \<Longrightarrow> sentinel_free v'"
proof (induction rs arbitrary: i v)
  case Nil
  then show ?case by simp
next
  case (Cons r rs)
  then show ?case
    by (auto split: sum.splits dest: step_sentinel_free)
qed

lemma split_sentinel_free:
  "split line = (ps, None) \<Longrightarrow> p \<in> set ps \<Longrightarrow> eol \<notin> set p"
  using loop_sentinel_free [of "int (length (line @ [eol]))" 0 "line @ [eol]" split_init]
  by (auto simp add: split_def Let_def sentinel_free_def split_init_def split: sum.splits)

section \<open>The claims\<close>

text \<open>
  Claim C1 (round trip), as amended. The claim as written, for arbitrary text, fails:
  a command or argument that holds U+0000 is encoded with the sentinel in the line, and
  \<open>Parse\<close> rejects every such line. What holds: for every command \<open>c\<close> and argument
  sequence \<open>args\<close> in which U+0000 does not occur, and whose encoded command \<open>Quote c\<close> is
  not a single rune (by \<open>Quote_length_1\<close>: \<open>c\<close> is not one rune that needs no escape),
  \<open>Parse (GetCommandLine c args)\<close> succeeds and returns exactly \<open>c\<close> and \<open>args\<close>, in order.
\<close>

theorem Parse_GetCommandLine_roundtrip:
  assumes "eol \<notin> set c" and "\<forall>a \<in> set args. eol \<notin> set a" and "length (Quote c) \<noteq> 1"
  shows "Parse (GetCommandLine c args) = (c, args, None)"
  using split_GetCommandLine [OF assms] by (simp add: Parse_ok_iff)

theorem Parse_GetCommandLine_roundtrip_witness:
  "eol \<notin> set (runes ''ls'') \<and>
   eol \<notin> set (runes ''-l'') \<and> eol \<notin> set [] \<and> eol \<notin> set (runes ''my dir'') \<and>
   length (Quote (runes ''ls'')) \<noteq> 1 \<and>
   Parse (GetCommandLine (runes ''ls'') [runes ''-l'', [], runes ''my dir'']) =
     (runes ''ls'', [runes ''-l'', [], runes ''my dir''], None)"
proof -
  have a: "eol \<notin> set (runes ''ls'')" by (simp add: runes_def eol_def)
  have b1: "eol \<notin> set (runes ''-l'')" and b2: "eol \<notin> set []"
    and b3: "eol \<notin> set (runes ''my dir'')"
    by (simp_all add: runes_def eol_def)
  have b: "\<forall>a \<in> set [runes ''-l'', [], runes ''my dir'']. eol \<notin> set a"
    using b1 b3 by simp
  have c: "length (Quote (runes ''ls'')) \<noteq> 1" by (simp add: ev)
  show ?thesis using a b1 b2 b3 c Parse_GetCommandLine_roundtrip [OF a b c] by blast
qed

text \<open>
  The claim fails at the command \<^verbatim>\<open>cmd\<close> with the one argument U+0000: the encoded
  line is rejected instead of giving the argument back.
\<close>

theorem Parse_GetCommandLine_roundtrip_counterexample:
  "Parse (GetCommandLine (runes ''cmd'') [[0]]) =
     ([], [], Some (ErrParse ''Invalid 0 char in command line'')) \<and>
   Parse (GetCommandLine (runes ''cmd'') [[0]]) \<noteq> (runes ''cmd'', [[0]], None)"
  by (simp add: ev)

text \<open>
  Claim C2 (token-boundary emission rule): a token is emitted at a boundary if and only
  if it was opened since the previous boundary. The code decides this by
  \<^verbatim>\<open>partStart < (i - 1)\<close> with \<^verbatim>\<open>partStart\<close> starting at 0, so a first token of exactly one
  rune, opened at index 0 and ended at index 1, is not emitted and its buffer is not
  reset: the line \<^verbatim>\<open>a\<close> yields no token at all, and in \<^verbatim>\<open>a b\<close> the rune runs into the next
  token.
\<close>

theorem split_one_rune_first_token:
  "split (runes ''a'') = ([], None) \<and>
   Parse (runes ''a'') = ([], [], Some (ErrParse ''Unexpected end of command line'')) \<and>
   Parse (runes ''a b'') = (runes ''ab'', [], None) \<and>
   Parse (runes '' a b'') = (runes ''a'', [runes ''b''], None)"
  by (simp add: ev)

text \<open>
  Claim C3 (failure conditions): \<open>Parse\<close> returns a parse error exactly when the line
  holds the sentinel U+0000, or ends inside a single- or double-quote span, or ends with
  an escape pending, or yields zero tokens, and succeeds in every other case. The code
  breaks the second half on a line whose only token is one plain rune at index 0: the
  line \<^verbatim>\<open>a\<close> holds no U+0000 and reaches the sentinel in the default state, with no
  escape pending and with the rune \<^verbatim>\<open>a\<close> appended to the buffer, so it yields a token;
  yet that token is not emitted (\<^verbatim>\<open>partStart < (i - 1)\<close> is \<^verbatim>\<open>0 < 0\<close>) and \<open>Parse\<close> returns
  the error meant for an empty line. The same holds with trailing spaces; with a leading
  space the line parses.
\<close>

theorem Parse_one_rune_line_fails:
  "eol \<notin> set (runes ''a'') \<and>
   state (scan 0 (runes ''a'') split_init) = parseDefault \<and>
   escape (scan 0 (runes ''a'') split_init) = False \<and>
   sb (scan 0 (runes ''a'') split_init) = runes ''a'' \<and>
   Parse (runes ''a'') = ([], [], Some (ErrParse ''Unexpected end of command line'')) \<and>
   Parse (runes ''a  '') = ([], [], Some (ErrParse ''Unexpected end of command line'')) \<and>
   Parse (runes '' a'') = (runes ''a'', [], None)"
  by (simp add: ev)

text \<open>
  Claim C4 (encoder selection rule): for every non-empty token value, \<open>Quote\<close> returns
  the rendering that the two-stage rule of the specification selects. The code compares
  byte lengths (\<open>len\<close>); the rule selects the same rendering when lengths are counted in
  code points (\<open>length\<close>), since the three renderings add ASCII runes only.
\<close>

theorem Quote_selection:
  assumes "v \<noteq> []"
  shows "Quote v = selection_rule len v \<and> Quote v = selection_rule length v"
proof -
  have a: "Quote v = selection_rule len v"
    using assms by (simp add: Quote_def selection_rule_def Let_def len_eq_0 not_less)
  have "selection_rule len v = selection_rule length v"
    using len_quoteRaw [of v] len_quoteSingle [of v] len_quoteDouble [of v]
    unfolding selection_rule_def Let_def
    by auto
  with a show ?thesis by simp
qed

theorem Quote_selection_witness:
  "runes ''foo bar'' \<noteq> [] \<and>
   Quote (runes ''foo bar'') = selection_rule len (runes ''foo bar'') \<and>
   Quote (runes ''foo bar'') = selection_rule length (runes ''foo bar'') \<and>
   Quote (runes ''foo bar'') = runes ''foo'' @ [esc] @ runes '' bar''"
proof -
  have a: "runes ''foo bar'' \<noteq> []" by (simp add: runes_def)
  have b: "Quote (runes ''foo bar'') = runes ''foo'' @ [esc] @ runes '' bar''"
    by (simp add: ev)
  show ?thesis using a b Quote_selection [OF a] by blast
qed

text \<open>
  Claim C5 (escape semantics by quoting context), as amended. As written, for every
  codepoint, the claim fails at the sentinel: U+0000 inside a quote span is not appended
  but ends the scan with an error. What holds, for every iteration of the loop: inside a
  single-quote span every rune other than the closing single quote and U+0000 (backslash
  included) is appended literally, escape flag untouched; inside a double-quote span a
  backslash sets the escape flag, a following double quote or backslash is appended
  alone, and before any other rune except U+0000 the backslash is appended first. The
  line \<^verbatim>\<open>'a\b'\<close> gives the token \<^verbatim>\<open>a\b\<close>, the line \<^verbatim>\<open>"\n"\<close> the two-rune token
  backslash, n.
\<close>

theorem escape_semantics:
  "(r \<noteq> sqt \<and> r \<noteq> eol \<longrightarrow>
      step n i r (vars p parseSingleQuote e b ps) =
        Inr (vars p parseSingleQuote e (b @ [r]) ps)) \<and>
   step n i sqt (vars p parseSingleQuote e b ps) = Inr (vars p parseDefault e b ps) \<and>
   step n i esc (vars p parseDoubleQuote False b ps) = Inr (vars p parseDoubleQuote True b ps) \<and>
   (r = dqt \<or> r = esc \<longrightarrow>
      step n i r (vars p parseDoubleQuote True b ps) =
        Inr (vars p parseDoubleQuote False (b @ [r]) ps)) \<and>
   (r \<noteq> dqt \<and> r \<noteq> esc \<and> r \<noteq> eol \<longrightarrow>
      step n i r (vars p parseDoubleQuote True b ps) =
        Inr (vars p parseDoubleQuote False (b @ [esc, r]) ps)) \<and>
   split ([sqt] @ runes ''a'' @ [esc] @ runes ''b'' @ [sqt]) =
     ([runes ''a'' @ [esc] @ runes ''b''], None) \<and>
   split ([dqt, esc] @ runes ''n'' @ [dqt]) = ([[esc] @ runes ''n''], None)"
proof -
  have 1: "split ([sqt] @ runes ''a'' @ [esc] @ runes ''b'' @ [sqt]) =
     ([runes ''a'' @ [esc] @ runes ''b''], None)"
    by (simp add: ev)
  have 2: "split ([dqt, esc] @ runes ''n'' @ [dqt]) = ([[esc] @ runes ''n''], None)"
    by (simp add: ev)
  show ?thesis
    using 1 2
    by (simp add: step_single_other step_single_sqt step_double_esc step_double_escaped_special
          step_double_escaped_other)
qed

theorem escape_semantics_witness:
  "step 5 1 esc (vars [] parseSingleQuote False [] 0) =
     Inr (vars [] parseSingleQuote False [esc] 0) \<and>
   step 5 2 dqt (vars [] parseDoubleQuote True [] 0) =
     Inr (vars [] parseDoubleQuote False [dqt] 0) \<and>
   step 5 2 110 (vars [] parseDoubleQuote True [] 0) =
     Inr (vars [] parseDoubleQuote False [esc, 110] 0)"
  using escape_semantics [of esc 5 1 "[]" False "[]" 0]
    escape_semantics [of dqt 5 2 "[]" False "[]" 0]
    escape_semantics [of 110 5 2 "[]" False "[]" 0]
  by (simp add: rune_defs)

text \<open>
  The claim as written fails at the line single quote, U+0000, single quote: the rune
  inside the span is not appended, the line is rejected.
\<close>

theorem escape_semantics_counterexample:
  "split [sqt, eol, sqt] = ([], Some (ErrParse ''Invalid 0 char in command line'')) \<and>
   split [sqt, eol, sqt] \<noteq> ([[eol]], None)"
  by (simp add: ev)



text \<open>
  Claim C7 (encoder composition and example outputs): \<open>GetCommandLine\<close> is \<open>Quote\<close> of
  the command followed, for each argument in order, by one space and \<open>Quote\<close> of the
  argument; \<open>Quote\<close> of the empty string is the pair of double quotes; \<^verbatim>\<open>foobar\<close> is left
  unchanged; \<^verbatim>\<open>foo bar\<close> becomes \<^verbatim>\<open>foo\ bar\<close>; and the full-line example gives the line of
  the specification.
\<close>

theorem GetCommandLine_composition:
  "GetCommandLine command args = Quote command @ concat (map (\<lambda>arg. [32] @ Quote arg) args) \<and>
   Quote [] = [dqt, dqt] \<and>
   Quote (runes ''foobar'') = runes ''foobar'' \<and>
   Quote (runes ''foo bar'') = runes ''foo'' @ [esc] @ runes '' bar'' \<and>
   GetCommandLine (runes ''newcommand'')
     [runes ''blub'', [], runes ''foo bar'', [dqt] @ runes ''test  '',
      runes ''blub'' @ [sqt, sqt, esc], [dqt, dqt, dqt]] =
     runes ''newcommand blub '' @ [dqt, dqt] @ runes '' foo'' @ [esc] @ runes '' bar ''
       @ [sqt, dqt] @ runes ''test  '' @ [sqt] @ runes '' '' @ [dqt] @ runes ''blub''
       @ [sqt, sqt, esc, esc, dqt] @ runes '' '' @ [sqt, dqt, dqt, dqt, sqt]"
proof -
  have 1: "Quote [] = [dqt, dqt]" by (simp add: Quote_def)
  have 2: "Quote (runes ''foobar'') = runes ''foobar''" by (simp add: ev)
  have 3: "Quote (runes ''foo bar'') = runes ''foo'' @ [esc] @ runes '' bar''" by (simp add: ev)
  have 4: "GetCommandLine (runes ''newcommand'')
     [runes ''blub'', [], runes ''foo bar'', [dqt] @ runes ''test  '',
      runes ''blub'' @ [sqt, sqt, esc], [dqt, dqt, dqt]] =
     runes ''newcommand blub '' @ [dqt, dqt] @ runes '' foo'' @ [esc] @ runes '' bar ''
       @ [sqt, dqt] @ runes ''test  '' @ [sqt] @ runes '' '' @ [dqt] @ runes ''blub''
       @ [sqt, sqt, esc, esc, dqt] @ runes '' '' @ [sqt, dqt, dqt, dqt, sqt]"
    by (simp add: ev)
  have 5: "GetCommandLine command args =
      Quote command @ concat (map (\<lambda>arg. [32] @ Quote arg) args)"
    by (simp add: GetCommandLine_def GetCommandLine_loop_eq)
  show ?thesis using 1 2 3 4 5 by blast
qed

text \<open>
  Claim C8 (parsed-command structure): every successful call of \<open>Parse\<close> comes from at
  least one token; the first token is the command, the remaining tokens are the
  arguments in their order, and with exactly one token there are no arguments.
\<close>

theorem Parse_structure:
  assumes "snd (snd (Parse line)) = None"
  shows "\<exists>ps. split line = (ps, None) \<and> 1 \<le> length ps \<and>
           Parse line = (ps ! 0, drop 1 ps, None) \<and>
           (length ps = 1 \<longrightarrow> fst (snd (Parse line)) = [])"
proof -
  obtain c args where ok: "Parse line = (c, args, None)"
    using assms by (cases "Parse line") auto
  then have "split line = (c # args, None)" by (simp add: Parse_ok_iff)
  then show ?thesis using ok by simp
qed

theorem Parse_structure_witness:
  "snd (snd (Parse (runes ''cmd -d''))) = None \<and>
   (\<exists>ps. split (runes ''cmd -d'') = (ps, None) \<and> 1 \<le> length ps \<and>
      Parse (runes ''cmd -d'') = (ps ! 0, drop 1 ps, None) \<and>
      (length ps = 1 \<longrightarrow> fst (snd (Parse (runes ''cmd -d''))) = [])) \<and>
   split (runes ''cmd -d'') = ([runes ''cmd'', runes ''-d''], None)"
proof -
  have a: "snd (snd (Parse (runes ''cmd -d''))) = None" by (simp add: ev)
  have b: "split (runes ''cmd -d'') = ([runes ''cmd'', runes ''-d''], None)" by (simp add: ev)
  show ?thesis using a b Parse_structure [OF a] by blast
qed

text \<open>
  Claim C9 (sentinel-free output): whenever \<open>Parse\<close> succeeds, neither the command nor
  any argument holds U+0000; and a line that holds U+0000 anywhere, escaped or quoted or
  not, is rejected.
\<close>

theorem Parse_sentinel_free:
  "(Parse line = (c, args, None) \<longrightarrow> eol \<notin> set c \<and> (\<forall>a \<in> set args. eol \<notin> set a)) \<and>
   (eol \<in> set line \<longrightarrow>
      Parse line = ([], [], Some (ErrParse ''Invalid 0 char in command line'')))"
proof -
  have "eol \<notin> set c \<and> (\<forall>a \<in> set args. eol \<notin> set a)" if "Parse line = (c, args, None)"
  proof -
    from that have "split line = (c # args, None)" by (simp add: Parse_ok_iff)
    then show ?thesis using split_sentinel_free [of line "c # args"] by auto
  qed
  moreover have "Parse line = ([], [], Some (ErrParse ''Invalid 0 char in command line''))"
    if "eol \<in> set line"
    using that by (simp add: Parse_def split_eq)
  ultimately show ?thesis by blast
qed

theorem Parse_sentinel_free_witness:
  "Parse (runes ''cmd -d'') = (runes ''cmd'', [runes ''-d''], None) \<and>
   eol \<notin> set (runes ''cmd'') \<and> eol \<notin> set (runes ''-d'') \<and>
   eol \<in> set (runes ''cmd '' @ [esc, eol]) \<and>
   Parse (runes ''cmd '' @ [esc, eol]) =
     ([], [], Some (ErrParse ''Invalid 0 char in command line''))"
proof -
  have a: "Parse (runes ''cmd -d'') = (runes ''cmd'', [runes ''-d''], None)" by (simp add: ev)
  have b: "eol \<in> set (runes ''cmd '' @ [esc, eol])" by simp
  have "eol \<notin> set (runes ''cmd'') \<and> (\<forall>a \<in> set [runes ''-d'']. eol \<notin> set a)"
    using a Parse_sentinel_free [of "runes ''cmd -d''" "runes ''cmd''" "[runes ''-d'']"]
    by blast
  then have c: "eol \<notin> set (runes ''cmd'')" and d: "eol \<notin> set (runes ''-d'')"
    by simp_all
  have e: "Parse (runes ''cmd '' @ [esc, eol]) =
     ([], [], Some (ErrParse ''Invalid 0 char in command line''))"
    using b Parse_sentinel_free [of "runes ''cmd '' @ [esc, eol]" "[]" "[]"] by blast
  show ?thesis using a b c d e by blast
qed

text \<open>
  Claim C10 (mock executor): when \<open>Parse\<close> succeeds, \<open>RunLine\<close> is exactly the callback
  applied to the parsed command and arguments; when \<open>Parse\<close> fails, \<open>RunLine\<close> returns the
  empty output, exit code 0 and the parse error and leaves the world as it was, whatever
  the callback (so the callback is not called); \<open>Run\<close> always is the callback applied to
  its arguments.
\<close>

theorem MockExecutor_routing:
  "(Parse line = (c, args, None) \<longrightarrow>
      MockExecutor_RunLine (NewMockExecutor (Some cb)) line w = Some (cb c args w)) \<and>
   (Parse line = (c, args, Some err) \<longrightarrow>
      MockExecutor_RunLine (NewMockExecutor f) line w = Some (([], 0, Some err), w)) \<and>
   MockExecutor_Run (NewMockExecutor (Some cb)) c args w = Some (cb c args w)"
  by (simp add: MockExecutor_RunLine_def MockExecutor_Run_def NewMockExecutor_def call_def)

theorem MockExecutor_routing_witness:
  "Parse (runes ''cmd foo'') = (runes ''cmd'', [runes ''foo''], None) \<and>
   MockExecutor_RunLine (NewMockExecutor (Some test_callback)) (runes ''cmd foo'') [] =
     Some ((runes ''foobar'', 42, Some GenericError), [(runes ''cmd'', [runes ''foo''])]) \<and>
   Parse (runes ''cmd '' @ [dqt] @ runes ''bar'') =
     ([], [], Some (ErrParse ''Unexpected end of command line'')) \<and>
   MockExecutor_RunLine (NewMockExecutor (Some test_callback))
       (runes ''cmd '' @ [dqt] @ runes ''bar'') [] =
     Some (([], 0, Some (ErrParse ''Unexpected end of command line'')), [])"
proof -
  have a: "Parse (runes ''cmd foo'') = (runes ''cmd'', [runes ''foo''], None)"
    by (simp add: ev)
  have b: "Parse (runes ''cmd '' @ [dqt] @ runes ''bar'') =
     ([], [], Some (ErrParse ''Unexpected end of command line''))"
    by (simp add: ev)
  show ?thesis
    using a b
      MockExecutor_routing [of "runes ''cmd foo''" "runes ''cmd''" "[runes ''foo'']"
        test_callback "[]"]
      MockExecutor_routing [of "runes ''cmd '' @ [dqt] @ runes ''bar''" "[]" "[]" _ _
        "ErrParse ''Unexpected end of command line''" "Some test_callback"]
    by (simp add: test_callback_def)
qed

end
